theory Spec2Isabelle
  imports Complex_Main
begin

section \<open>The browser pages\<close>

subsection \<open>JavaScript values\<close>

text \<open>
  The pages are TypeScript, whose types are erased when the page runs: what
  \<open>res.json()\<close> resolves to is any JSON value, whatever the interfaces \<open>Change\<close> and
  \<open>Assessment\<close> say. A parsed number is a double; the model keeps its exact value, which
  is a rational. \<open>JUndefined\<close> is never the result of parsing, it is what reading an
  absent property gives.
\<close>

datatype js =
    JUndefined
  | JNull
  | JBool bool
  | JNum rat
  | JStr string
  | JArr "js list"
  | JObj "(string \<times> js) list"

datatype js_error = TypeError

text \<open>JavaScript's ToBoolean, which \<open>!x\<close> and \<open>x || y\<close> apply to their left operand.\<close>

fun truthy :: "js \<Rightarrow> bool" where
  "truthy JUndefined = False"
| "truthy JNull = False"
| "truthy (JBool b) = b"
| "truthy (JNum q) = (q \<noteq> 0)"
| "truthy (JStr s) = (s \<noteq> [])"
| "truthy (JArr xs) = True"
| "truthy (JObj kvs) = True"

definition js_or :: "js \<Rightarrow> js \<Rightarrow> js" where
  "js_or a b = (if truthy a then a else b)"

text \<open>
  \<open>data.k\<close> for a property name \<open>k\<close> that no built-in prototype defines (\<open>items\<close> is
  one): reading it from \<open>null\<close> or \<open>undefined\<close> throws a TypeError, an object gives its
  own member (of two members with one name \<open>JSON.parse\<close> keeps the later) and everything
  else, arrays and strings too, gives \<open>undefined\<close>.
\<close>

fun get_member :: "js \<Rightarrow> string \<Rightarrow> js_error + js" where
  "get_member JUndefined k = Inl TypeError"
| "get_member JNull k = Inl TypeError"
| "get_member (JObj kvs) k =
     Inr (case map_of (rev kvs) k of Some v \<Rightarrow> v | None \<Rightarrow> JUndefined)"
| "get_member v k = Inr JUndefined"

subsection \<open>The browser around a page\<close>

text \<open>
  \<open>localStorage\<close> and \<open>process.env\<close> map names to strings; \<open>getItem\<close> of an absent name
  is \<open>null\<close> and an unset environment variable is \<open>undefined\<close>, both \<open>None\<close> here.
\<close>

type_synonym storage = "string \<rightharpoonup> string"
type_synonym env = "string \<rightharpoonup> string"

definition getItem :: "storage \<Rightarrow> string \<Rightarrow> string option" where
  "getItem ls k = ls k"


text \<open>\<open>process.env.NEXT_PUBLIC_API_URL || ''\<close>: unset and empty both give the empty string.\<close>

definition api_base :: "env \<Rightarrow> string" where
  "api_base e = (case e ''NEXT_PUBLIC_API_URL'' of None \<Rightarrow> [] | Some u \<Rightarrow> u)"

text \<open>
  What the server's answer does to the promise chain \<open>fetch(...).then(res => res.json())\<close>:
  \<open>fetch\<close> rejects (no connection), \<open>res.json()\<close> rejects (the body is not JSON), or the
  body parses to a value. \<open>fetch\<close> does not reject on an HTTP error status.
\<close>

datatype response = FetchRejected | JsonRejected | Parsed js

text \<open>
  The observable steps of a handler, in program order. A handler is modelled by the list
  of steps it performs.
\<close>

datatype action =
    Navigate string
  | Fetch string "(string \<times> string) list"
  | SetChanges js
  | SetAssessment js
  | PreventDefault
  | SetItem string string
  | Alert string

subsection \<open>The changes list, \<open>frontend/app/page.tsx\<close>\<close>

text \<open>The body of \<open>.then((data) => setChanges(data.items || []))\<close>.\<close>

definition items_or_empty :: "js \<Rightarrow> js_error + js" where
  "items_or_empty data =
     (case get_member data ''items'' of
        Inl e \<Rightarrow> Inl e
      | Inr v \<Rightarrow> Inr (js_or v (JArr [])))"

text \<open>
  The effect of \<open>HomePage\<close>. A rejection anywhere in the chain, the TypeError of the
  second \<open>then\<close> included, reaches \<open>.catch(() => setChanges([]))\<close>.
\<close>

definition HomePage :: "env \<Rightarrow> storage \<Rightarrow> response \<Rightarrow> action list" where
  "HomePage e ls resp =
     (case getItem ls ''token'' of
        None \<Rightarrow> [Navigate ''/login'']
      | Some token \<Rightarrow>
          if token = [] then [Navigate ''/login'']
          else
            Fetch (api_base e @ ''/v1/changes'') [(''X-API-Key'', token)] #
            (case resp of
               Parsed data \<Rightarrow>
                 (case items_or_empty data of
                    Inr v \<Rightarrow> [SetChanges v]
                  | Inl err \<Rightarrow> [SetChanges (JArr [])])
             | FetchRejected \<Rightarrow> [SetChanges (JArr [])]
             | JsonRejected \<Rightarrow> [SetChanges (JArr [])]))"

subsection \<open>The changes list, second copy (\<open>unnamed/part_000\<close>)\<close>

text \<open>
  The same component with another header and \<open>.then(setChanges)\<close>: the parsed body
  itself becomes the state.
\<close>

definition HomePage_part_000 :: "env \<Rightarrow> storage \<Rightarrow> response \<Rightarrow> action list" where
  "HomePage_part_000 e ls resp =
     (case getItem ls ''token'' of
        None \<Rightarrow> [Navigate ''/login'']
      | Some token \<Rightarrow>
          if token = [] then [Navigate ''/login'']
          else
            Fetch (api_base e @ ''/v1/changes'') [(''Authorization'', ''Bearer '' @ token)] #
            (case resp of
               Parsed data \<Rightarrow> [SetChanges data]
             | FetchRejected \<Rightarrow> [SetChanges (JArr [])]
             | JsonRejected \<Rightarrow> [SetChanges (JArr [])]))"

subsection \<open>The impact page, second component of \<open>frontend/app/login/page.tsx\<close>\<close>

text \<open>
  \<open>useParams()\<close> gives the route parameter as a string, a list of strings, or nothing;
  the cast \<open>as string\<close> changes nothing at run time, and the template literal
  \<open>`/v1/impacts/${id}`\<close> converts whatever is there to a string: \<open>undefined\<close> becomes the
  word, a list is joined with commas.
\<close>

datatype param = PUndefined | PString string | PList "string list"

fun join_commas :: "string list \<Rightarrow> string" where
  "join_commas [] = []"
| "join_commas [s] = s"
| "join_commas (s # t # ss) = s @ '','' @ join_commas (t # ss)"

fun param_to_string :: "param \<Rightarrow> string" where
  "param_to_string PUndefined = ''undefined''"
| "param_to_string (PString s) = s"
| "param_to_string (PList ss) = join_commas ss"

definition ImpactPage :: "env \<Rightarrow> storage \<Rightarrow> param \<Rightarrow> response \<Rightarrow> action list" where
  "ImpactPage e ls ident resp =
     (case getItem ls ''token'' of
        None \<Rightarrow> [Navigate ''/login'']
      | Some token \<Rightarrow>
          if token = [] then [Navigate ''/login'']
          else
            Fetch (api_base e @ ''/v1/impacts/'' @ param_to_string ident)
                  [(''Authorization'', ''Bearer '' @ token)] #
            (case resp of
               Parsed data \<Rightarrow> [SetAssessment data]
             | FetchRejected \<Rightarrow> [SetAssessment JNull]
             | JsonRejected \<Rightarrow> [SetAssessment JNull]))"

subsection \<open>The login form, first component of \<open>frontend/app/login/page.tsx\<close>\<close>


text \<open>
  The requests a run sends, as (URL, headers), and the value a run leaves in the
  component's state (\<open>changes\<close> or \<open>assessment\<close>), which is what the component renders.
\<close>

fun requests :: "action list \<Rightarrow> (string \<times> (string \<times> string) list) list" where
  "requests [] = []"
| "requests (Fetch url hs # as) = (url, hs) # requests as"
| "requests (a # as) = requests as"

fun state_set :: "action list \<Rightarrow> js option" where
  "state_set [] = None"
| "state_set (SetChanges v # as) = Some v"
| "state_set (SetAssessment v # as) = Some v"
| "state_set (a # as) = state_set as"

subsection \<open>The declared shapes and what the impact page renders\<close>

text \<open>
  The interfaces \<open>Change\<close> (\<open>{id: number; summary: string}\<close>) and \<open>Assessment\<close>
  (\<open>{id: number; summary: string; actions: string[]; diff?: string}\<close>), as tests on a
  parsed value. The pages declare them and never check them.
\<close>

fun is_number :: "js \<Rightarrow> bool" where
  "is_number (JNum q) = True"
| "is_number v = False"

fun is_string :: "js \<Rightarrow> bool" where
  "is_string (JStr s) = True"
| "is_string v = False"


definition Change :: "js \<Rightarrow> bool" where
  "Change v =
     (case v of
        JObj kvs \<Rightarrow>
          (case map_of (rev kvs) ''id'' of None \<Rightarrow> False | Some i \<Rightarrow> is_number i) \<and>
          (case map_of (rev kvs) ''summary'' of None \<Rightarrow> False | Some t \<Rightarrow> is_string t)
      | _ \<Rightarrow> False)"





subsection \<open>What the changes lists render\<close>

text \<open>
  The state \<open>changes\<close> starts as \<open>[]\<close> (\<open>useState<Change[]>([])\<close>) and holds the value
  of the last \<open>setChanges\<close> afterwards.
\<close>

definition changes_after :: "action list \<Rightarrow> js" where
  "changes_after run = (case state_set run of None \<Rightarrow> JArr [] | Some v \<Rightarrow> v)"

text \<open>
  The callback of \<open>changes.map\<close> reads \<open>change.id\<close> (for the key and the link
  \<open>/impact/${change.id}\<close>) and \<open>change.summary\<close> (the text of the link); on a \<open>null\<close>
  element the first read throws. An entry of the view is that pair of values, as handed
  to React.
\<close>

definition change_entry :: "js \<Rightarrow> js_error + js \<times> js" where
  "change_entry change =
     (case get_member change ''id'' of
        Inl e \<Rightarrow> Inl e
      | Inr i \<Rightarrow>
          (case get_member change ''summary'' of
             Inl e \<Rightarrow> Inl e
           | Inr t \<Rightarrow> Inr (i, t)))"

fun change_entries :: "js list \<Rightarrow> js_error + (js \<times> js) list" where
  "change_entries [] = Inr []"
| "change_entries (x # xs) =
     (case change_entry x of
        Inl e \<Rightarrow> Inl e
      | Inr p \<Rightarrow>
          (case change_entries xs of
             Inl e \<Rightarrow> Inl e
           | Inr ps \<Rightarrow> Inr (p # ps)))"

datatype list_view = NoChanges | ChangeList "(js \<times> js) list"

text \<open>
  \<open>changes.map(...)\<close> on the state: an array is mapped, element by element in order;
  on \<open>null\<close> and \<open>undefined\<close> the read of \<open>map\<close> throws; any other value has no
  function \<open>map\<close> (a member of a parsed object is never a function) and the call throws.
\<close>

definition map_changes :: "js \<Rightarrow> js_error + list_view" where
  "map_changes changes =
     (case changes of
        JArr xs \<Rightarrow>
          (case change_entries xs of
             Inl e \<Rightarrow> Inl e
           | Inr ps \<Rightarrow> Inr (ChangeList ps))
      | _ \<Rightarrow> Inl TypeError)"

text \<open>
  \<open>changes.length === 0\<close>: the length of an array or of a string, the own member
  \<open>length\<close> of an object, \<open>undefined\<close> for a number or a boolean; a TypeError on \<open>null\<close>
  and \<open>undefined\<close>.
\<close>

definition length_is_zero :: "js \<Rightarrow> js_error + bool" where
  "length_is_zero changes =
     (case changes of
        JUndefined \<Rightarrow> Inl TypeError
      | JNull \<Rightarrow> Inl TypeError
      | JArr xs \<Rightarrow> Inr (xs = [])
      | JStr s \<Rightarrow> Inr (s = [])
      | JObj kvs \<Rightarrow> Inr (map_of (rev kvs) ''length'' = Some (JNum 0))
      | _ \<Rightarrow> Inr False)"

text \<open>
  The body of \<open>HomePage\<close> in \<open>frontend/app/page.tsx\<close>: the line "No changes found." when
  the length is zero, the mapped list otherwise.
\<close>

definition HomePage_view :: "js \<Rightarrow> js_error + list_view" where
  "HomePage_view changes =
     (case length_is_zero changes of
        Inl e \<Rightarrow> Inl e
      | Inr z \<Rightarrow> if z then Inr NoChanges else map_changes changes)"

text \<open>The body of \<open>HomePage\<close> in \<open>unnamed/part_000\<close>: the mapped list, always.\<close>

definition HomePage_part_000_view :: "js \<Rightarrow> js_error + list_view" where
  "HomePage_part_000_view changes = map_changes changes"

subsection \<open>What \<open>fetch\<close> makes of the headers\<close>






section \<open>The persisted layout, \<open>db/init/01_schema.sql\<close>\<close>

subsection \<open>The script as data\<close>

text \<open>
  The column types and column constraints the script writes. \<open>ARRAY_OF\<close> is PostgreSQL's
  array type (\<open>TEXT[]\<close> is \<open>ARRAY_OF TEXT\<close>); the script declares no column of it.
  \<open>DEFAULT NOW()\<close> is a default, listed with the constraints as the script lists it.
  The script's \<open>INT\<close> is written \<open>INTEGER\<close>, the type it abbreviates.
\<close>

datatype sql_type = SERIAL | TEXT | INTEGER | TIMESTAMP | FLOAT | ARRAY_OF sql_type

datatype col_attr =
    PRIMARY_KEY
  | UNIQUE
  | NOT_NULL
  | REFERENCES string string
  | DEFAULT_NOW

datatype column = Column (col_name: string) (col_type: sql_type) (col_attrs: "col_attr list")

datatype table = Table (tab_name: string) (tab_cols: "column list")

text \<open>The five \<open>CREATE TABLE\<close> statements, in the script's order, as run on an empty database.\<close>

definition schema :: "table list" where
  "schema =
    [Table ''source''
       [Column ''id'' SERIAL [PRIMARY_KEY],
        Column ''url'' TEXT [NOT_NULL]],
     Table ''document''
       [Column ''id'' SERIAL [PRIMARY_KEY],
        Column ''external_id'' TEXT [UNIQUE, NOT_NULL],
        Column ''source_id'' INTEGER [REFERENCES ''source'' ''id''],
        Column ''created_at'' TIMESTAMP [DEFAULT_NOW]],
     Table ''document_version''
       [Column ''id'' SERIAL [PRIMARY_KEY],
        Column ''document_id'' INTEGER [REFERENCES ''document'' ''id''],
        Column ''content_hash'' TEXT [NOT_NULL],
        Column ''content'' TEXT [],
        Column ''created_at'' TIMESTAMP [DEFAULT_NOW]],
     Table ''change_event''
       [Column ''id'' SERIAL [PRIMARY_KEY],
        Column ''document_version_id'' INTEGER [REFERENCES ''document_version'' ''id''],
        Column ''prev_version_id'' INTEGER [REFERENCES ''document_version'' ''id''],
        Column ''diff'' TEXT [],
        Column ''created_at'' TIMESTAMP [DEFAULT_NOW]],
     Table ''impact_assessment''
       [Column ''id'' SERIAL [PRIMARY_KEY],
        Column ''document_version_id'' INTEGER [REFERENCES ''document_version'' ''id''],
        Column ''summary'' TEXT [],
        Column ''actions'' TEXT [],
        Column ''score'' FLOAT [],
        Column ''created_at'' TIMESTAMP [DEFAULT_NOW]]]"

definition find_table :: "table list \<Rightarrow> string \<Rightarrow> table option" where
  "find_table sch tn = find (\<lambda>t. tab_name t = tn) sch"

definition find_column :: "table list \<Rightarrow> string \<Rightarrow> string \<Rightarrow> column option" where
  "find_column sch tn cn =
     (case find_table sch tn of
        None \<Rightarrow> None
      | Some t \<Rightarrow> find (\<lambda>c. col_name c = cn) (tab_cols t))"

text \<open>Every \<open>REFERENCES\<close> of a layout: (table, column, referenced table, referenced column).\<close>

definition foreign_keys :: "table list \<Rightarrow> (string \<times> string \<times> string \<times> string) list" where
  "foreign_keys sch =
     [(tab_name t, col_name c, t', c').
        t \<leftarrow> sch, c \<leftarrow> tab_cols t, REFERENCES t' c' \<leftarrow> col_attrs c]"

text \<open>
  A column refuses NULL when it is declared \<open>NOT NULL\<close>, is a primary key, or is
  \<open>SERIAL\<close> (which PostgreSQL expands to a \<open>NOT NULL\<close> integer fed by a sequence).
\<close>

definition refuses_null :: "column \<Rightarrow> bool" where
  "refuses_null c =
     (col_type c = SERIAL \<or> NOT_NULL \<in> set (col_attrs c) \<or> PRIMARY_KEY \<in> set (col_attrs c))"

definition nullable :: "table list \<Rightarrow> string \<Rightarrow> string \<Rightarrow> bool" where
  "nullable sch tn cn =
     (case find_column sch tn cn of None \<Rightarrow> False | Some c \<Rightarrow> \<not> refuses_null c)"

definition is_unique :: "column \<Rightarrow> bool" where
  "is_unique c = (UNIQUE \<in> set (col_attrs c) \<or> PRIMARY_KEY \<in> set (col_attrs c))"

subsection \<open>Stored values and states\<close>

text \<open>
  The values PostgreSQL holds in a column, as it holds them: an integer, a text, a
  timestamp (the microseconds since 2000-01-01 00:00:00 the server counts, with the two
  infinities at the ends of the 64-bit range), a finite double by its exact value (the
  two infinities and NaN of a double are left out), an array. A stored row gives each
  column of its table a value, in the table's column order. A state of the store maps a
  table name to its rows, oldest first.
\<close>

datatype sql_val =
    VNull
  | VInt int
  | VText string
  | VTimestamp int
  | VFloat rat
  | VArray "sql_val list"

type_synonym row = "(string \<times> sql_val) list"
type_synonym db = "string \<Rightarrow> row list"

definition cell :: "row \<Rightarrow> string \<Rightarrow> sql_val" where
  "cell r c = (case map_of r c of Some v \<Rightarrow> v | None \<Rightarrow> VNull)"

definition column_values :: "db \<Rightarrow> string \<Rightarrow> string \<Rightarrow> sql_val list" where
  "column_values d tn cn = map (\<lambda>r. cell r cn) (d tn)"

definition in_int4 :: "int \<Rightarrow> bool" where
  "in_int4 i = (- 2147483648 \<le> i \<and> i \<le> 2147483647)"

text \<open>
  The range of \<open>TIMESTAMP\<close>: from Julian day 0 up to, not including, the first day of
  the year 294277, counted from the server's epoch (Julian day 2451545), or one of the
  two infinities.
\<close>

definition in_timestamp :: "int \<Rightarrow> bool" where
  "in_timestamp n =
     (n = - (2 ^ 63) \<or> n = 2 ^ 63 - 1 \<or>
      (- 211813488000000000 \<le> n \<and> n < 9223371331200000000))"

text \<open>
  The finite values of a double: the rationals \<open>m * 2 ^ e\<close> with \<open>\<bar>m\<bar> < 2 ^ 53\<close> and
  \<open>- 1074 \<le> e \<le> 971\<close>, read off the fraction in lowest terms.
\<close>

definition is_double :: "rat \<Rightarrow> bool" where
  "is_double q =
     (case quotient_of q of
        (a, b) \<Rightarrow>
          (\<exists>k \<in> {0..1074::nat}. b = 2 ^ k) \<and>
          (\<exists>j \<in> {0..971::nat}. 2 ^ j dvd a \<and> \<bar>a\<bar> div 2 ^ j < 2 ^ 53))"

text \<open>
  Which values a column of a type holds; NULL fits every type, and a text holds no NUL
  character. This is a test on what is stored, after any cast of an \<open>INSERT\<close>: an integer
  offered to a \<open>FLOAT\<close> column is stored as that double, an integer or an array offered
  to a \<open>TEXT\<close> column as its text.
\<close>

fun has_type :: "sql_val \<Rightarrow> sql_type \<Rightarrow> bool" where
  "has_type VNull ty = True"
| "has_type (VInt i) SERIAL = in_int4 i"
| "has_type (VInt i) INTEGER = in_int4 i"
| "has_type (VText s) TEXT = (CHR 0x00 \<notin> set s)"
| "has_type (VTimestamp n) TIMESTAMP = in_timestamp n"
| "has_type (VFloat q) FLOAT = is_double q"
| "has_type (VArray vs) (ARRAY_OF ty) = list_all (\<lambda>v. has_type v ty) vs"
| "has_type v ty = False"

subsection \<open>What the constraints demand of a state\<close>

text \<open>
  A primary key is unique and not null. \<open>UNIQUE\<close> alone lets any number of NULLs through,
  as PostgreSQL does. A reference is NULL or the value of the referenced column in some
  row of the referenced table.
\<close>

fun attr_holds :: "db \<Rightarrow> string \<Rightarrow> string \<Rightarrow> col_attr \<Rightarrow> bool" where
  "attr_holds d tn cn PRIMARY_KEY =
     (VNull \<notin> set (column_values d tn cn) \<and> distinct (column_values d tn cn))"
| "attr_holds d tn cn UNIQUE =
     distinct (filter (\<lambda>v. v \<noteq> VNull) (column_values d tn cn))"
| "attr_holds d tn cn NOT_NULL = (VNull \<notin> set (column_values d tn cn))"
| "attr_holds d tn cn (REFERENCES tn' cn') =
     (\<forall>v \<in> set (column_values d tn cn). v = VNull \<or> v \<in> set (column_values d tn' cn'))"
| "attr_holds d tn cn DEFAULT_NOW = True"

definition column_holds :: "db \<Rightarrow> string \<Rightarrow> column \<Rightarrow> bool" where
  "column_holds d tn c =
     ((\<forall>v \<in> set (column_values d tn (col_name c)). has_type v (col_type c)) \<and>
      (col_type c = SERIAL \<longrightarrow> VNull \<notin> set (column_values d tn (col_name c))) \<and>
      (\<forall>a \<in> set (col_attrs c). attr_holds d tn (col_name c) a))"

definition table_holds :: "db \<Rightarrow> table \<Rightarrow> bool" where
  "table_holds d t =
     ((\<forall>r \<in> set (d (tab_name t)). map fst r = map col_name (tab_cols t)) \<and>
      (\<forall>c \<in> set (tab_cols t). column_holds d (tab_name t) c))"

definition satisfies :: "table list \<Rightarrow> db \<Rightarrow> bool" where
  "satisfies sch d = (\<forall>t \<in> set sch. table_holds d t)"

subsection \<open>Inserting a row\<close>

text \<open>
  \<open>INSERT\<close> of a row given as the store will hold it: every column named, in the
  table's order, each value already of its column's type (defaults filled in, casts
  done). On such a row PostgreSQL checks \<open>NOT NULL\<close> column by column, then the unique
  indexes, and the foreign keys last, against the state that holds the new row. The
  casts and defaults of an \<open>INSERT\<close> that offers other values are not part of this
  model: a row that is not in the stored form is answered \<open>NotStoredForm\<close>, which says
  only that, and nothing about what PostgreSQL makes of the statement.
\<close>

datatype db_error =
    UndefinedTable string
  | NotStoredForm string string
  | NotNullViolation string string
  | UniqueViolation string string
  | ForeignKeyViolation string string

definition shape_violations :: "table \<Rightarrow> row \<Rightarrow> db_error list" where
  "shape_violations t r =
     (if map fst r \<noteq> map col_name (tab_cols t) then [NotStoredForm (tab_name t) []]
      else [NotStoredForm (tab_name t) (col_name c).
              c \<leftarrow> tab_cols t, \<not> has_type (cell r (col_name c)) (col_type c)])"

definition not_null_violations :: "table \<Rightarrow> row \<Rightarrow> db_error list" where
  "not_null_violations t r =
     [NotNullViolation (tab_name t) (col_name c).
        c \<leftarrow> tab_cols t, refuses_null c, cell r (col_name c) = VNull]"

definition unique_violations :: "db \<Rightarrow> table \<Rightarrow> row \<Rightarrow> db_error list" where
  "unique_violations d t r =
     [UniqueViolation (tab_name t) (col_name c).
        c \<leftarrow> tab_cols t, is_unique c, cell r (col_name c) \<noteq> VNull,
        cell r (col_name c) \<in> set (column_values d (tab_name t) (col_name c))]"

definition fk_violations :: "db \<Rightarrow> table \<Rightarrow> row \<Rightarrow> db_error list" where
  "fk_violations d t r =
     [ForeignKeyViolation (tab_name t) (col_name c).
        c \<leftarrow> tab_cols t, REFERENCES tn' cn' \<leftarrow> col_attrs c, cell r (col_name c) \<noteq> VNull,
        cell r (col_name c) \<notin> set (column_values d tn' cn')]"

definition insert_row :: "table list \<Rightarrow> db \<Rightarrow> string \<Rightarrow> row \<Rightarrow> db_error + db" where
  "insert_row sch d tn r =
     (case find_table sch tn of
        None \<Rightarrow> Inl (UndefinedTable tn)
      | Some t \<Rightarrow>
          (let d' = d(tn := d tn @ [r]) in
           case shape_violations t r @ not_null_violations t r @
                unique_violations d t r @ fk_violations d' t r of
             [] \<Rightarrow> Inr d'
           | e # es \<Rightarrow> Inl e))"

text \<open>
  A row fits a table when it is in the stored form: it has the table's columns, in order,
  with values of their types.
\<close>

definition row_fits :: "table list \<Rightarrow> string \<Rightarrow> row \<Rightarrow> bool" where
  "row_fits sch tn r =
     (case find_table sch tn of None \<Rightarrow> False | Some t \<Rightarrow> shape_violations t r = [])"

text \<open>Several inserts, one after the other, stopping at the first that is rejected.\<close>

fun insert_rows :: "table list \<Rightarrow> db \<Rightarrow> (string \<times> row) list \<Rightarrow> db_error + db" where
  "insert_rows sch d [] = Inr d"
| "insert_rows sch d ((tn, r) # rest) =
     (case insert_row sch d tn r of
        Inl e \<Rightarrow> Inl e
      | Inr d' \<Rightarrow> insert_rows sch d' rest)"

text \<open>The rows of a table whose column holds a given value.\<close>

definition rows_with :: "db \<Rightarrow> string \<Rightarrow> string \<Rightarrow> sql_val \<Rightarrow> row list" where
  "rows_with d tn cn v = filter (\<lambda>r. cell r cn = v) (d tn)"

subsection \<open>Sample rows\<close>

text \<open>
  The store right after the script has run, and the rows of a small history: two sources,
  one document of the first source and its first version.
\<close>

definition empty_db :: db where
  "empty_db = (\<lambda>tn. [])"

definition source_row :: "int \<Rightarrow> string \<Rightarrow> row" where
  "source_row i u = [(''id'', VInt i), (''url'', VText u)]"

definition document_row :: "int \<Rightarrow> string \<Rightarrow> int \<Rightarrow> row" where
  "document_row i ext src =
     [(''id'', VInt i), (''external_id'', VText ext), (''source_id'', VInt src),
      (''created_at'', VTimestamp 0)]"

definition version_row :: "int \<Rightarrow> int \<Rightarrow> string \<Rightarrow> string \<Rightarrow> row" where
  "version_row i doc h c =
     [(''id'', VInt i), (''document_id'', VInt doc), (''content_hash'', VText h),
      (''content'', VText c), (''created_at'', VTimestamp 0)]"

definition event_row :: "int \<Rightarrow> sql_val \<Rightarrow> sql_val \<Rightarrow> row" where
  "event_row i ver prev =
     [(''id'', VInt i), (''document_version_id'', ver), (''prev_version_id'', prev),
      (''diff'', VText ''+ Rule A v1''), (''created_at'', VTimestamp 0)]"

definition assessment_row :: "int \<Rightarrow> sql_val \<Rightarrow> sql_val \<Rightarrow> row" where
  "assessment_row i ver acts =
     [(''id'', VInt i), (''document_version_id'', ver), (''summary'', VText ''Rule A amended''),
      (''actions'', acts), (''score'', VFloat (1 / 2)), (''created_at'', VTimestamp 0)]"

definition seed_rows :: "(string \<times> row) list" where
  "seed_rows =
     [(''source'', source_row 1 ''https://regulator.example/a''),
      (''source'', source_row 2 ''https://regulator.example/b''),
      (''document'', document_row 1 ''ext-1'' 1),
      (''document_version'', version_row 1 1 ''h1'' ''Rule A v1'')]"

text \<open>The state those rows and one assessment of the version make.\<close>

definition assessed_db :: db where
  "assessed_db =
     empty_db
      (''source'' := [source_row 1 ''https://regulator.example/a'',
                     source_row 2 ''https://regulator.example/b''],
       ''document'' := [document_row 1 ''ext-1'' 1],
       ''document_version'' := [version_row 1 1 ''h1'' ''Rule A v1''],
       ''impact_assessment'' := [assessment_row 1 (VInt 1) (VText ''notify compliance'')])"

section \<open>The ingestion pipeline\<close>




















section \<open>Properties of the browser pages\<close>

text \<open>
  C9: with no \<open>token\<close> entry in \<open>localStorage\<close>, the effect of each page (both copies of
  the changes list and the impact page) only sends the browser to \<open>/login\<close> and returns:
  the run holds that one step and no request, whatever the server would have answered.
\<close>

theorem no_fetch_without_token:
  assumes "getItem ls ''token'' = None"
  shows "HomePage e ls resp = [Navigate ''/login''] \<and>
         HomePage_part_000 e ls resp = [Navigate ''/login''] \<and>
         ImpactPage e ls ident resp = [Navigate ''/login''] \<and>
         requests (HomePage e ls resp) = [] \<and>
         requests (HomePage_part_000 e ls resp) = [] \<and>
         requests (ImpactPage e ls ident resp) = []"
  using assms by (simp add: HomePage_def HomePage_part_000_def ImpactPage_def)

theorem no_fetch_without_token_witness:
  "getItem Map.empty ''token'' = None \<and>
   HomePage Map.empty Map.empty (Parsed (JArr [])) = [Navigate ''/login''] \<and>
   HomePage_part_000 Map.empty Map.empty (Parsed (JArr [])) = [Navigate ''/login''] \<and>
   ImpactPage Map.empty Map.empty (PString ''7'') (Parsed (JArr [])) = [Navigate ''/login'']"
proof -
  have h: "getItem Map.empty ''token'' = None"
    by (simp add: getItem_def)
  show ?thesis
    using h no_fetch_without_token [OF h, of Map.empty "Parsed (JArr [])" "PString ''7''"]
    by simp
qed














text \<open>
  C6, as stated, fails for \<open>frontend/app/page.tsx\<close>: the server answers with a bare list
  of one change, and the page ends with the empty list, because a list has no \<open>items\<close>.
\<close>

theorem bare_list_not_rendered:
  "list_all Change [JObj [(''id'', JNum 1), (''summary'', JStr ''Rule A amended'')]] \<and>
   HomePage Map.empty [''token'' \<mapsto> ''t'']
     (Parsed (JArr [JObj [(''id'', JNum 1), (''summary'', JStr ''Rule A amended'')]])) =
   [Fetch ''/v1/changes'' [(''X-API-Key'', ''t'')], SetChanges (JArr [])]"
  by (simp add: HomePage_def getItem_def items_or_empty_def js_or_def api_base_def Change_def)

lemma Change_entry:
  assumes "Change x"
  shows "\<exists>p. change_entry x = Inr p \<and> get_member x ''id'' = Inr (fst p) \<and>
           get_member x ''summary'' = Inr (snd p)"
proof -
  from assms obtain kvs where "x = JObj kvs"
    by (cases x) (simp_all add: Change_def)
  then show ?thesis
    by (simp add: change_entry_def)
qed

lemma Change_entries:
  assumes "list_all Change xs"
  shows "\<exists>ps. change_entries xs = Inr ps \<and>
           list_all2 (\<lambda>x p. get_member x ''id'' = Inr (fst p) \<and>
                            get_member x ''summary'' = Inr (snd p)) xs ps"
  using assms
proof (induction xs)
  case Nil
  then show ?case by simp
next
  case (Cons x xs)
  from Cons.prems have "Change x" and "list_all Change xs"
    by simp_all
  from Change_entry [OF this(1)] obtain p where
    p: "change_entry x = Inr p" "get_member x ''id'' = Inr (fst p)"
       "get_member x ''summary'' = Inr (snd p)"
    by blast
  from Cons.IH [OF \<open>list_all Change xs\<close>] obtain ps where
    ps: "change_entries xs = Inr ps"
        "list_all2 (\<lambda>x p. get_member x ''id'' = Inr (fst p) \<and>
                          get_member x ''summary'' = Inr (snd p)) xs ps"
    by blast
  have "change_entries (x # xs) = Inr (p # ps)"
    using p(1) ps(1) by simp
  moreover have "list_all2 (\<lambda>x p. get_member x ''id'' = Inr (fst p) \<and>
                          get_member x ''summary'' = Inr (snd p)) (x # xs) (p # ps)"
    using p(2,3) ps(2) by simp
  ultimately show ?case
    by blast
qed

lemma changes_after_part_000:
  assumes "getItem ls ''token'' = Some token" and "token \<noteq> []"
  shows "changes_after (HomePage_part_000 e ls (Parsed body)) = body"
  using assms by (simp add: changes_after_def HomePage_part_000_def)

lemma changes_after_HomePage:
  assumes "getItem ls ''token'' = Some token" and "token \<noteq> []"
  shows "changes_after (HomePage e ls (Parsed body)) =
           (case get_member body ''items'' of
              Inl err \<Rightarrow> JArr []
            | Inr v \<Rightarrow> if truthy v then v else JArr [])"
  using assms
  by (simp add: changes_after_def HomePage_def items_or_empty_def js_or_def split: sum.splits)

text \<open>
  C6, amended: with a usable token and a body that parses, the copy in
  \<open>unnamed/part_000\<close> takes the parsed body itself as the list: for a body that is a list
  of objects of the shape \<open>{id: number, summary: string}\<close> it renders one entry per
  element, in order, with that element's \<open>id\<close> and \<open>summary\<close>, and for a body that is not
  a list its render throws a TypeError. The page in \<open>frontend/app/page.tsx\<close> takes the
  body's \<open>items\<close> member instead: when \<open>items\<close> is a non-empty list of such objects it
  renders one entry per element of \<open>items\<close>, in order; when the body has no truthy
  \<open>items\<close> member, which is the case of every body that is itself a list, it renders the
  line "No changes found." and no entry.
\<close>

theorem changes_list_rendered:
  assumes "getItem ls ''token'' = Some token" and "token \<noteq> []"
  shows "state_set (HomePage_part_000 e ls (Parsed body)) = Some body \<and>
         (list_all Change xs \<longrightarrow>
            (\<exists>ps. HomePage_part_000_view
                     (changes_after (HomePage_part_000 e ls (Parsed (JArr xs)))) =
                     Inr (ChangeList ps) \<and>
                   list_all2 (\<lambda>x p. get_member x ''id'' = Inr (fst p) \<and>
                                    get_member x ''summary'' = Inr (snd p)) xs ps)) \<and>
         ((\<forall>ys. body \<noteq> JArr ys) \<longrightarrow>
            HomePage_part_000_view (changes_after (HomePage_part_000 e ls (Parsed body))) =
              Inl TypeError) \<and>
         (get_member body ''items'' = Inr (JArr xs) \<and> xs \<noteq> [] \<and> list_all Change xs \<longrightarrow>
            (\<exists>ps. HomePage_view (changes_after (HomePage e ls (Parsed body))) =
                     Inr (ChangeList ps) \<and>
                   list_all2 (\<lambda>x p. get_member x ''id'' = Inr (fst p) \<and>
                                    get_member x ''summary'' = Inr (snd p)) xs ps)) \<and>
         ((\<forall>v. get_member body ''items'' = Inr v \<longrightarrow> \<not> truthy v) \<longrightarrow>
            HomePage_view (changes_after (HomePage e ls (Parsed body))) = Inr NoChanges) \<and>
         (\<forall>ys. HomePage_view (changes_after (HomePage e ls (Parsed (JArr ys)))) = Inr NoChanges)"
proof -
  have s: "state_set (HomePage_part_000 e ls (Parsed body)) = Some body"
    using assms by (simp add: HomePage_part_000_def)
  have p1: "\<exists>ps. HomePage_part_000_view
                     (changes_after (HomePage_part_000 e ls (Parsed (JArr xs)))) =
                     Inr (ChangeList ps) \<and>
                   list_all2 (\<lambda>x p. get_member x ''id'' = Inr (fst p) \<and>
                                    get_member x ''summary'' = Inr (snd p)) xs ps"
    if "list_all Change xs"
    using Change_entries [OF that]
    by (auto simp add: changes_after_part_000 [OF assms] HomePage_part_000_view_def
        map_changes_def)
  have p2: "HomePage_part_000_view (changes_after (HomePage_part_000 e ls (Parsed body))) =
              Inl TypeError"
    if "\<forall>ys. body \<noteq> JArr ys"
    using that
    by (cases body)
      (simp_all add: changes_after_part_000 [OF assms] HomePage_part_000_view_def
        map_changes_def)
  have h1: "\<exists>ps. HomePage_view (changes_after (HomePage e ls (Parsed body))) =
                     Inr (ChangeList ps) \<and>
                   list_all2 (\<lambda>x p. get_member x ''id'' = Inr (fst p) \<and>
                                    get_member x ''summary'' = Inr (snd p)) xs ps"
    if "get_member body ''items'' = Inr (JArr xs)" "xs \<noteq> []" "list_all Change xs"
    using that(1,2) Change_entries [OF that(3)]
    by (auto simp add: changes_after_HomePage [OF assms] HomePage_view_def length_is_zero_def
        map_changes_def)
  have h2: "HomePage_view (changes_after (HomePage e ls (Parsed body))) = Inr NoChanges"
    if "\<forall>v. get_member body ''items'' = Inr v \<longrightarrow> \<not> truthy v"
    using that
    by (auto simp add: changes_after_HomePage [OF assms] HomePage_view_def length_is_zero_def
        split: sum.splits)
  have h3: "HomePage_view (changes_after (HomePage e ls (Parsed (JArr ys)))) = Inr NoChanges"
    for ys
    by (simp add: changes_after_HomePage [OF assms] HomePage_view_def length_is_zero_def)
  show ?thesis
    using s p1 p2 h1 h2 h3 by blast
qed


theorem changes_list_rendered_witness:
  "getItem [''token'' \<mapsto> ''t''] ''token'' = Some ''t'' \<and> ''t'' \<noteq> [] \<and>
   list_all Change [JObj [(''id'', JNum 1), (''summary'', JStr ''Rule A amended'')]] \<and>
   HomePage_part_000_view (changes_after (HomePage_part_000 Map.empty [''token'' \<mapsto> ''t'']
     (Parsed (JArr [JObj [(''id'', JNum 1), (''summary'', JStr ''Rule A amended'')]])))) =
     Inr (ChangeList [(JNum 1, JStr ''Rule A amended'')]) \<and>
   HomePage_view (changes_after (HomePage Map.empty [''token'' \<mapsto> ''t'']
     (Parsed (JObj [(''items'',
        JArr [JObj [(''id'', JNum 1), (''summary'', JStr ''Rule A amended'')]])])))) =
     Inr (ChangeList [(JNum 1, JStr ''Rule A amended'')]) \<and>
   HomePage_view (changes_after (HomePage Map.empty [''token'' \<mapsto> ''t'']
     (Parsed (JArr [JObj [(''id'', JNum 1), (''summary'', JStr ''Rule A amended'')]])))) =
     Inr NoChanges \<and>
   HomePage_part_000_view (changes_after (HomePage_part_000 Map.empty [''token'' \<mapsto> ''t'']
     (Parsed (JObj [(''items'',
        JArr [JObj [(''id'', JNum 1), (''summary'', JStr ''Rule A amended'')]])])))) =
     Inl TypeError"
proof -
  let ?c = "JObj [(''id'', JNum 1), (''summary'', JStr ''Rule A amended'')]"
  have h: "getItem [''token'' \<mapsto> ''t''] ''token'' = Some ''t''"
    by (simp add: getItem_def)
  have n: "''t'' \<noteq> []"
    by simp
  have c: "list_all Change [?c]"
    by (simp add: Change_def)
  have g: "get_member ?c ''id'' = Inr (JNum 1)" "get_member ?c ''summary'' = Inr (JStr ''Rule A amended'')"
    by simp_all
  have i: "get_member (JObj [(''items'', JArr [?c])]) ''items'' = Inr (JArr [?c])"
    by simp
  note t = changes_list_rendered [OF h n, of Map.empty _ "[?c]"]
  from t [of "JArr [?c]"] c obtain ps where
    "HomePage_part_000_view (changes_after (HomePage_part_000 Map.empty [''token'' \<mapsto> ''t'']
       (Parsed (JArr [?c])))) = Inr (ChangeList ps)"
    "list_all2 (\<lambda>x p. get_member x ''id'' = Inr (fst p) \<and>
                     get_member x ''summary'' = Inr (snd p)) [?c] ps"
    by blast
  then have v1: "HomePage_part_000_view (changes_after (HomePage_part_000 Map.empty
      [''token'' \<mapsto> ''t''] (Parsed (JArr [?c])))) =
      Inr (ChangeList [(JNum 1, JStr ''Rule A amended'')])"
    using g by (auto simp add: list_all2_Cons1 prod_eq_iff)
  from t [of "JObj [(''items'', JArr [?c])]"] c i obtain qs where
    "HomePage_view (changes_after (HomePage Map.empty [''token'' \<mapsto> ''t'']
       (Parsed (JObj [(''items'', JArr [?c])])))) = Inr (ChangeList qs)"
    "list_all2 (\<lambda>x p. get_member x ''id'' = Inr (fst p) \<and>
                     get_member x ''summary'' = Inr (snd p)) [?c] qs"
    by blast
  then have v2: "HomePage_view (changes_after (HomePage Map.empty [''token'' \<mapsto> ''t'']
       (Parsed (JObj [(''items'', JArr [?c])])))) =
      Inr (ChangeList [(JNum 1, JStr ''Rule A amended'')])"
    using g by (auto simp add: list_all2_Cons1 prod_eq_iff)
  have v3: "HomePage_view (changes_after (HomePage Map.empty [''token'' \<mapsto> ''t'']
      (Parsed (JArr [?c])))) = Inr NoChanges"
    using t [of "JArr [?c]"] by blast
  have v4: "HomePage_part_000_view (changes_after (HomePage_part_000 Map.empty
      [''token'' \<mapsto> ''t''] (Parsed (JObj [(''items'', JArr [?c])])))) = Inl TypeError"
    using t [of "JObj [(''items'', JArr [?c])]"] by blast
  show ?thesis
    using h n c v1 v2 v3 v4 by blast
qed

text \<open>
  C10, as stated, fails: on the same token and the same answer the two copies send
  different headers and end with different lists.
\<close>

theorem home_pages_differ:
  "map snd (requests (HomePage Map.empty [''token'' \<mapsto> ''t'']
      (Parsed (JArr [JObj [(''id'', JNum 1), (''summary'', JStr ''s'')]])))) =
     [[(''X-API-Key'', ''t'')]] \<and>
   map snd (requests (HomePage_part_000 Map.empty [''token'' \<mapsto> ''t'']
      (Parsed (JArr [JObj [(''id'', JNum 1), (''summary'', JStr ''s'')]])))) =
     [[(''Authorization'', ''Bearer t'')]] \<and>
   state_set (HomePage Map.empty [''token'' \<mapsto> ''t'']
      (Parsed (JArr [JObj [(''id'', JNum 1), (''summary'', JStr ''s'')]]))) = Some (JArr []) \<and>
   state_set (HomePage_part_000 Map.empty [''token'' \<mapsto> ''t'']
      (Parsed (JArr [JObj [(''id'', JNum 1), (''summary'', JStr ''s'')]]))) =
     Some (JArr [JObj [(''id'', JNum 1), (''summary'', JStr ''s'')]])"
  by (simp add: HomePage_def HomePage_part_000_def getItem_def items_or_empty_def js_or_def
      api_base_def)

text \<open>
  C10, amended: the two copies of the changes list agree on this much. Without a usable
  token (none, or the empty string) both only redirect to \<open>/login\<close>. They request the
  same URLs. When \<open>fetch\<close> or the parsing rejects, both end in the same state. And the
  page of \<open>frontend/app/page.tsx\<close> computes from a body \<open>{items: L}\<close> what the copy computes
  from the body \<open>L\<close>, for every truthy \<open>L\<close> (every list is). They differ in the header,
  \<open>X-API-Key: token\<close> against \<open>Authorization: Bearer token\<close>, whenever they send a request.
\<close>

theorem home_pages_agreement:
  "((getItem ls ''token'' = None \<or> getItem ls ''token'' = Some []) \<longrightarrow>
       HomePage e ls resp = [Navigate ''/login''] \<and>
       HomePage_part_000 e ls resp = [Navigate ''/login'']) \<and>
   map fst (requests (HomePage e ls resp)) = map fst (requests (HomePage_part_000 e ls resp)) \<and>
   ((resp = FetchRejected \<or> resp = JsonRejected) \<longrightarrow>
       state_set (HomePage e ls resp) = state_set (HomePage_part_000 e ls resp)) \<and>
   (truthy items \<longrightarrow>
       state_set (HomePage e ls (Parsed (JObj [(''items'', items)]))) =
       state_set (HomePage_part_000 e ls (Parsed items))) \<and>
   (\<forall>token. getItem ls ''token'' = Some token \<and> token \<noteq> [] \<longrightarrow>
       map snd (requests (HomePage e ls resp)) = [[(''X-API-Key'', token)]] \<and>
       map snd (requests (HomePage_part_000 e ls resp)) =
         [[(''Authorization'', ''Bearer '' @ token)]])"
  by (cases resp)
    (auto simp add: HomePage_def HomePage_part_000_def items_or_empty_def js_or_def
      split: sum.splits option.splits)

theorem home_pages_agreement_witness:
  "getItem [''token'' \<mapsto> ''t''] ''token'' = Some ''t'' \<and> ''t'' \<noteq> [] \<and>
   truthy (JArr [JStr ''x'']) \<and>
   state_set (HomePage Map.empty [''token'' \<mapsto> ''t'']
     (Parsed (JObj [(''items'', JArr [JStr ''x''])]))) =
   state_set (HomePage_part_000 Map.empty [''token'' \<mapsto> ''t''] (Parsed (JArr [JStr ''x'']))) \<and>
   state_set (HomePage Map.empty [''token'' \<mapsto> ''t''] JsonRejected) =
   state_set (HomePage_part_000 Map.empty [''token'' \<mapsto> ''t''] JsonRejected) \<and>
   map snd (requests (HomePage Map.empty [''token'' \<mapsto> ''t''] JsonRejected)) =
     [[(''X-API-Key'', ''t'')]] \<and>
   map snd (requests (HomePage_part_000 Map.empty [''token'' \<mapsto> ''t''] JsonRejected)) =
     [[(''Authorization'', ''Bearer t'')]] \<and>
   getItem Map.empty ''token'' = None \<and>
   HomePage Map.empty Map.empty JsonRejected = [Navigate ''/login''] \<and>
   HomePage_part_000 Map.empty Map.empty JsonRejected = [Navigate ''/login'']"
  using
    home_pages_agreement [of "[''token'' \<mapsto> ''t'']" Map.empty JsonRejected "JArr [JStr ''x'']"]
    home_pages_agreement [of Map.empty Map.empty JsonRejected "JArr [JStr ''x'']"]
  by (simp add: getItem_def)

section \<open>Properties of the persisted layout\<close>

subsection \<open>What a state that satisfies a layout gives\<close>

lemma filter_not_null:
  "VNull \<notin> set vs \<Longrightarrow> filter (\<lambda>v. v \<noteq> VNull) vs = vs"
  by (induction vs) auto



lemma find_table_mem:
  "find_table sch tn = Some t \<Longrightarrow> t \<in> set sch \<and> tab_name t = tn"
  by (auto simp add: find_table_def find_Some_iff)

lemma find_column_mem:
  "find_column sch tn cn = Some c \<Longrightarrow>
     \<exists>t. find_table sch tn = Some t \<and> c \<in> set (tab_cols t) \<and> col_name c = cn"
  by (auto simp add: find_column_def find_Some_iff split: option.splits)

lemma satisfies_column:
  assumes "satisfies sch d" and "find_column sch tn cn = Some c"
  shows "column_holds d tn c"
proof -
  obtain t where t: "find_table sch tn = Some t" "c \<in> set (tab_cols t)"
    using find_column_mem [OF assms(2)] by blast
  then have "table_holds d t" and "tab_name t = tn"
    using assms(1) find_table_mem [OF t(1)] by (auto simp add: satisfies_def)
  then show ?thesis
    using t(2) by (auto simp add: table_holds_def)
qed

lemma satisfies_attr:
  assumes "satisfies sch d" and "find_column sch tn cn = Some c" and "a \<in> set (col_attrs c)"
  shows "attr_holds d tn cn a"
  using satisfies_column [OF assms(1,2)] assms(3) find_column_mem [OF assms(2)]
  by (auto simp add: column_holds_def)



lemma column_values_append:
  "column_values (d(tn := d tn @ [r])) tn' cn =
     (if tn' = tn then column_values d tn cn @ [cell r cn] else column_values d tn' cn)"
  by (simp add: column_values_def)

lemma column_values_mono:
  "set (column_values d tn' cn) \<subseteq> set (column_values (d(tn := d tn @ [r])) tn' cn)"
  by (auto simp add: column_values_append)

lemma attr_holds_other_table:
  assumes "tn' \<noteq> tn" and "attr_holds d tn' cn a"
  shows "attr_holds (d(tn := d tn @ [r])) tn' cn a"
proof (cases a)
  case (REFERENCES tn'' cn'')
  then show ?thesis
    using assms column_values_mono [of d tn'' cn'' tn r]
    by (auto simp add: column_values_append)
qed (use assms in \<open>simp_all add: column_values_append\<close>)

lemma attr_holds_same_table:
  assumes "attr_holds d tn cn a"
    and "a = PRIMARY_KEY \<or> a = NOT_NULL \<longrightarrow> cell r cn \<noteq> VNull"
    and "a = PRIMARY_KEY \<or> a = UNIQUE \<longrightarrow>
           cell r cn = VNull \<or> cell r cn \<notin> set (column_values d tn cn)"
    and "\<And>tn' cn'. a = REFERENCES tn' cn' \<Longrightarrow>
           cell r cn = VNull \<or> cell r cn \<in> set (column_values (d(tn := d tn @ [r])) tn' cn')"
  shows "attr_holds (d(tn := d tn @ [r])) tn cn a"
proof (cases a)
  case (REFERENCES tn'' cn'')
  then show ?thesis
    using assms(1) assms(4) [OF REFERENCES] column_values_mono [of d tn'' cn'' tn r]
    by (auto simp add: column_values_append)
qed (use assms in \<open>auto simp add: column_values_append\<close>)

lemma not_null_violations_Nil:
  "not_null_violations t r = [] \<longleftrightarrow>
     (\<forall>c \<in> set (tab_cols t). refuses_null c \<longrightarrow> cell r (col_name c) \<noteq> VNull)"
  by (auto simp add: not_null_violations_def)

lemma unique_violations_Nil:
  "unique_violations d t r = [] \<longleftrightarrow>
     (\<forall>c \<in> set (tab_cols t). is_unique c \<longrightarrow> cell r (col_name c) = VNull \<or>
        cell r (col_name c) \<notin> set (column_values d (tab_name t) (col_name c)))"
  by (auto simp add: unique_violations_def)

lemma fk_violations_Nil:
  "fk_violations d t r = [] \<longleftrightarrow>
     (\<forall>c \<in> set (tab_cols t). \<forall>tn' cn'. REFERENCES tn' cn' \<in> set (col_attrs c) \<longrightarrow>
        cell r (col_name c) = VNull \<or> cell r (col_name c) \<in> set (column_values d tn' cn'))"
  apply (auto simp add: fk_violations_def split: col_attr.splits)
  done

lemma shape_violations_Nil:
  "shape_violations t r = [] \<longleftrightarrow>
     map fst r = map col_name (tab_cols t) \<and>
     (\<forall>c \<in> set (tab_cols t). has_type (cell r (col_name c)) (col_type c))"
  by (auto simp add: shape_violations_def)


lemma insert_row_cases:
  assumes "insert_row sch d tn r = Inr d'"
  obtains t where "find_table sch tn = Some t" and "d' = d(tn := d tn @ [r])"
    and "shape_violations t r = []" and "not_null_violations t r = []"
    and "unique_violations d t r = []" and "fk_violations d' t r = []"
  using assms
  by (auto simp add: insert_row_def Let_def split: option.splits list.splits)

lemma insert_row_preserves:
  assumes sat: "satisfies sch d" and dist: "distinct (map tab_name sch)"
    and ins: "insert_row sch d tn r = Inr d'"
  shows "satisfies sch d'"
proof -
  from ins obtain t where t: "find_table sch tn = Some t"
    and d': "d' = d(tn := d tn @ [r])"
    and shape: "shape_violations t r = []" and nn: "not_null_violations t r = []"
    and un: "unique_violations d t r = []" and fk: "fk_violations d' t r = []"
    by (rule insert_row_cases)
  have tmem: "t \<in> set sch" and tname: "tab_name t = tn"
    using find_table_mem [OF t] by simp_all
  have "table_holds d' t'" if t': "t' \<in> set sch" for t'
  proof -
    have old: "table_holds d t'"
      using sat t' by (simp add: satisfies_def)
    show ?thesis
    proof (cases "tab_name t' = tn")
      case False
      have "column_holds d' (tab_name t') c" if c: "c \<in> set (tab_cols t')" for c
      proof -
        have "column_holds d (tab_name t') c"
          using old c by (simp add: table_holds_def)
        then show ?thesis
          using False attr_holds_other_table [of "tab_name t'" tn d "col_name c" _ r]
          by (auto simp add: column_holds_def d' column_values_append)
      qed
      then show ?thesis
        using old False by (simp add: table_holds_def d')
    next
      case True
      then have eq: "t' = t"
        using dist tmem tname t' by (auto simp add: distinct_map inj_on_def)
      have "column_holds d' tn c" if c: "c \<in> set (tab_cols t)" for c
      proof -
        have h: "column_holds d tn c"
          using old c eq tname by (simp add: table_holds_def)
        have ty: "has_type (cell r (col_name c)) (col_type c)"
          using shape c by (simp add: shape_violations_Nil)
        have null: "refuses_null c \<longrightarrow> cell r (col_name c) \<noteq> VNull"
          using nn c by (simp add: not_null_violations_Nil)
        have uniq: "is_unique c \<longrightarrow> cell r (col_name c) = VNull \<or>
            cell r (col_name c) \<notin> set (column_values d tn (col_name c))"
          using un c tname by (simp add: unique_violations_Nil)
        have ref: "REFERENCES tn' cn' \<in> set (col_attrs c) \<Longrightarrow>
            cell r (col_name c) = VNull \<or>
            cell r (col_name c) \<in> set (column_values d' tn' cn')" for tn' cn'
          using fk c by (auto simp add: fk_violations_Nil)
        have "attr_holds d' tn (col_name c) a" if a: "a \<in> set (col_attrs c)" for a
          unfolding d'
        proof (rule attr_holds_same_table)
          show "attr_holds d tn (col_name c) a"
            using h a by (simp add: column_holds_def)
          show "a = PRIMARY_KEY \<or> a = NOT_NULL \<longrightarrow> cell r (col_name c) \<noteq> VNull"
            using null a by (auto simp add: refuses_null_def)
          show "a = PRIMARY_KEY \<or> a = UNIQUE \<longrightarrow> cell r (col_name c) = VNull \<or>
              cell r (col_name c) \<notin> set (column_values d tn (col_name c))"
            using uniq a by (auto simp add: is_unique_def)
          show "cell r (col_name c) = VNull \<or>
              cell r (col_name c) \<in> set (column_values (d(tn := d tn @ [r])) tn' cn')"
            if "a = REFERENCES tn' cn'" for tn' cn'
            using ref [of tn' cn'] a that by (simp add: d')
        qed
        then show ?thesis
          using h ty null by (auto simp add: column_holds_def d' column_values_append refuses_null_def)
      qed
      moreover have "\<forall>r' \<in> set (d' tn). map fst r' = map col_name (tab_cols t)"
        using old eq tname shape by (auto simp add: table_holds_def d' shape_violations_Nil)
      ultimately show ?thesis
        using eq tname by (simp add: table_holds_def)
    qed
  qed
  then show ?thesis
    by (simp add: satisfies_def)
qed


lemma insert_rows_preserve:
  assumes "distinct (map tab_name sch)"
  shows "satisfies sch d \<Longrightarrow> insert_rows sch d rs = Inr d' \<Longrightarrow> satisfies sch d'"
proof (induction rs arbitrary: d)
  case Nil
  then show ?case by simp
next
  case (Cons p rs)
  obtain tn r where p: "p = (tn, r)"
    by (cases p)
  from Cons.prems(2) obtain d1 where d1: "insert_row sch d tn r = Inr d1"
    and rest: "insert_rows sch d1 rs = Inr d'"
    by (auto simp add: p split: sum.splits)
  have "satisfies sch d1"
    using insert_row_preserves [OF Cons.prems(1) assms d1] .
  then show ?case
    using Cons.IH rest by blast
qed

lemma attr_holds_empty_db: "attr_holds empty_db tn cn a"
  by (cases a) (simp_all add: empty_db_def column_values_def)

lemma satisfies_empty_db: "satisfies sch empty_db"
  by (simp add: satisfies_def table_holds_def column_holds_def attr_holds_empty_db)
    (simp add: empty_db_def column_values_def)

lemma foreign_keys_mem:
  assumes "(tn, cn, tn', cn') \<in> set (foreign_keys sch)"
  shows "\<exists>t \<in> set sch. \<exists>c \<in> set (tab_cols t).
           tab_name t = tn \<and> col_name c = cn \<and> REFERENCES tn' cn' \<in> set (col_attrs c)"
  using assms by (auto simp add: foreign_keys_def split: col_attr.splits)

lemma satisfies_foreign_key:
  assumes "satisfies sch d" and "(tn, cn, tn', cn') \<in> set (foreign_keys sch)"
  shows "attr_holds d tn cn (REFERENCES tn' cn')"
proof -
  from foreign_keys_mem [OF assms(2)] obtain t c where
    "t \<in> set sch" "c \<in> set (tab_cols t)" "tab_name t = tn" "col_name c = cn"
    "REFERENCES tn' cn' \<in> set (col_attrs c)"
    by blast
  then show ?thesis
    using assms(1) unfolding satisfies_def table_holds_def column_holds_def by blast
qed

subsection \<open>The layout of the script\<close>

lemma schema_names_distinct: "distinct (map tab_name schema)"
  by (simp add: schema_def)

lemma find_column_schema:
  "find_column schema ''document'' ''external_id'' =
     Some (Column ''external_id'' TEXT [UNIQUE, NOT_NULL])"
  "find_column schema ''change_event'' ''document_version_id'' =
     Some (Column ''document_version_id'' INTEGER [REFERENCES ''document_version'' ''id''])"
  "find_column schema ''change_event'' ''prev_version_id'' =
     Some (Column ''prev_version_id'' INTEGER [REFERENCES ''document_version'' ''id''])"
  "find_column schema ''impact_assessment'' ''id'' = Some (Column ''id'' SERIAL [PRIMARY_KEY])"
  "find_column schema ''impact_assessment'' ''document_version_id'' =
     Some (Column ''document_version_id'' INTEGER [REFERENCES ''document_version'' ''id''])"
  "find_column schema ''impact_assessment'' ''summary'' = Some (Column ''summary'' TEXT [])"
  "find_column schema ''impact_assessment'' ''actions'' = Some (Column ''actions'' TEXT [])"
  by (simp_all add: find_column_def find_table_def schema_def)

lemmas insert_defs = insert_row_def find_table_def schema_def shape_violations_def
  not_null_violations_def unique_violations_def fk_violations_def refuses_null_def is_unique_def
lemmas sample_defs = empty_db_def seed_rows_def source_row_def document_row_def version_row_def
  event_row_def assessment_row_def assessed_db_def
lemmas holds_defs = satisfies_def schema_def table_holds_def column_holds_def

lemma is_double_half: "is_double (1 / 2)"
  by code_simp

lemmas type_defs = in_int4_def in_timestamp_def is_double_half

lemma satisfies_assessed_db: "satisfies schema assessed_db"
  by (simp add: holds_defs sample_defs column_values_def cell_def type_defs)


text \<open>
  C5: the layout's foreign keys are these five and no other: \<open>document.source_id\<close> to
  \<open>source.id\<close>, \<open>document_version.document_id\<close> to \<open>document.id\<close>,
  \<open>change_event.document_version_id\<close> and \<open>change_event.prev_version_id\<close> to
  \<open>document_version.id\<close>, and \<open>impact_assessment.document_version_id\<close> to
  \<open>document_version.id\<close>; \<open>prev_version_id\<close> is nullable. Each is enforced: in a state that
  satisfies the layout a referencing value is NULL or occurs in the referenced column.
\<close>

theorem schema_foreign_keys:
  "foreign_keys schema =
     [(''document'', ''source_id'', ''source'', ''id''),
      (''document_version'', ''document_id'', ''document'', ''id''),
      (''change_event'', ''document_version_id'', ''document_version'', ''id''),
      (''change_event'', ''prev_version_id'', ''document_version'', ''id''),
      (''impact_assessment'', ''document_version_id'', ''document_version'', ''id'')] \<and>
   nullable schema ''change_event'' ''prev_version_id'' \<and>
   (satisfies schema d \<longrightarrow>
      (\<forall>(tn, cn, tn', cn') \<in> set (foreign_keys schema).
         \<forall>v \<in> set (column_values d tn cn). v = VNull \<or> v \<in> set (column_values d tn' cn')))"
proof -
  have "foreign_keys schema =
     [(''document'', ''source_id'', ''source'', ''id''),
      (''document_version'', ''document_id'', ''document'', ''id''),
      (''change_event'', ''document_version_id'', ''document_version'', ''id''),
      (''change_event'', ''prev_version_id'', ''document_version'', ''id''),
      (''impact_assessment'', ''document_version_id'', ''document_version'', ''id'')]"
    by (simp add: foreign_keys_def schema_def)
  moreover have "nullable schema ''change_event'' ''prev_version_id''"
    by (simp add: nullable_def find_column_schema refuses_null_def)
  moreover have "\<forall>v \<in> set (column_values d tn cn). v = VNull \<or> v \<in> set (column_values d tn' cn')"
    if "satisfies schema d" and "(tn, cn, tn', cn') \<in> set (foreign_keys schema)" for tn cn tn' cn'
    using satisfies_foreign_key [OF that] by simp
  ultimately show ?thesis
    by blast
qed

theorem schema_foreign_keys_witness:
  "satisfies schema assessed_db \<and>
   column_values assessed_db ''impact_assessment'' ''document_version_id'' = [VInt 1] \<and>
   VInt 1 \<in> set (column_values assessed_db ''document_version'' ''id'')"
proof -
  have s: "satisfies schema assessed_db"
    by (rule satisfies_assessed_db)
  have a: "column_values assessed_db ''impact_assessment'' ''document_version_id'' = [VInt 1]"
    by (simp add: sample_defs column_values_def cell_def)
  have "\<forall>(tn, cn, tn', cn') \<in> set (foreign_keys schema).
      \<forall>v \<in> set (column_values assessed_db tn cn).
        v = VNull \<or> v \<in> set (column_values assessed_db tn' cn')"
    using schema_foreign_keys [of assessed_db] s by blast
  moreover have "(''impact_assessment'', ''document_version_id'', ''document_version'', ''id'')
      \<in> set (foreign_keys schema)"
    by (simp add: foreign_keys_def schema_def)
  ultimately have "\<forall>v \<in> set (column_values assessed_db ''impact_assessment''
      ''document_version_id''). v = VNull \<or> v \<in> set (column_values assessed_db ''document_version'' ''id'')"
    by blast
  then have "VInt 1 \<in> set (column_values assessed_db ''document_version'' ''id'')"
    using a by simp
  then show ?thesis
    using s a by blast
qed

text \<open>
  C4, as stated, fails: after a document \<open>ext-1\<close> of source 1, a document \<open>ext-1\<close> of
  source 2 is rejected by the unique index on \<open>external_id\<close>. Two documents under
  different sources cannot share an \<open>external_id\<close>.
\<close>

theorem same_external_id_other_source_rejected:
  "insert_rows schema empty_db (seed_rows @ [(''document'', document_row 2 ''ext-1'' 2)]) =
     Inl (UniqueViolation ''document'' ''external_id'')"
  by (simp add: insert_defs sample_defs column_values_def cell_def type_defs)

text \<open>
  C4, amended: \<open>document.external_id\<close> is unique over the whole table, not per source. In
  every state that satisfies the layout no two document rows have the same \<open>external_id\<close>,
  whatever their \<open>source_id\<close>, and none is NULL; an insert whose \<open>external_id\<close> is already
  there is rejected, whatever source it names.
\<close>

theorem document_external_id_unique:
  assumes "satisfies schema d"
  shows "distinct (column_values d ''document'' ''external_id'') \<and>
         VNull \<notin> set (column_values d ''document'' ''external_id'') \<and>
         (cell r ''external_id'' \<in> set (column_values d ''document'' ''external_id'') \<longrightarrow>
            (\<exists>e. insert_row schema d ''document'' r = Inl e))"
proof -
  have u: "attr_holds d ''document'' ''external_id'' UNIQUE"
    using satisfies_attr [OF assms find_column_schema(1), of UNIQUE] by simp
  have n: "attr_holds d ''document'' ''external_id'' NOT_NULL"
    using satisfies_attr [OF assms find_column_schema(1), of NOT_NULL] by simp
  from n have nn: "VNull \<notin> set (column_values d ''document'' ''external_id'')"
    by simp
  with u have "distinct (column_values d ''document'' ''external_id'')"
    by (simp add: filter_not_null)
  moreover have "\<exists>e. insert_row schema d ''document'' r = Inl e"
    if "cell r ''external_id'' \<in> set (column_values d ''document'' ''external_id'')"
    using that nn by (auto simp add: insert_defs Let_def split: list.splits)
  ultimately show ?thesis
    using nn by blast
qed

theorem document_external_id_unique_witness:
  "satisfies schema assessed_db \<and>
   column_values assessed_db ''document'' ''external_id'' = [VText ''ext-1''] \<and>
   cell (document_row 2 ''ext-1'' 2) ''external_id'' = VText ''ext-1'' \<and>
   (\<exists>e. insert_row schema assessed_db ''document'' (document_row 2 ''ext-1'' 2) = Inl e)"
proof -
  have s: "satisfies schema assessed_db"
    by (rule satisfies_assessed_db)
  have a: "column_values assessed_db ''document'' ''external_id'' = [VText ''ext-1'']"
    by (simp add: sample_defs column_values_def cell_def)
  have b: "cell (document_row 2 ''ext-1'' 2) ''external_id'' = VText ''ext-1''"
    by (simp add: sample_defs cell_def)
  have "\<exists>e. insert_row schema assessed_db ''document'' (document_row 2 ''ext-1'' 2) = Inl e"
    using document_external_id_unique [OF s, of "document_row 2 ''ext-1'' 2"] a b by simp
  then show ?thesis
    using s a b by blast
qed

text \<open>
  C1, as stated, fails: two inserts of an assessment for version 1 are both accepted, and
  the state they leave satisfies the layout with two rows that reference the version.
\<close>

theorem two_assessments_for_one_version:
  "(case insert_rows schema empty_db
           (seed_rows @
            [(''impact_assessment'', assessment_row 1 (VInt 1) (VText ''notify compliance'')),
             (''impact_assessment'', assessment_row 2 (VInt 1) (VText ''notify compliance''))]) of
      Inl e \<Rightarrow> False
    | Inr d \<Rightarrow>
        satisfies schema d \<and>
        length (rows_with d ''impact_assessment'' ''document_version_id'' (VInt 1)) = 2)"
proof -
  have "\<exists>d. insert_rows schema empty_db
           (seed_rows @
            [(''impact_assessment'', assessment_row 1 (VInt 1) (VText ''notify compliance'')),
             (''impact_assessment'', assessment_row 2 (VInt 1) (VText ''notify compliance''))]) =
         Inr d \<and>
         length (rows_with d ''impact_assessment'' ''document_version_id'' (VInt 1)) = 2"
    by (simp add: insert_defs sample_defs column_values_def cell_def type_defs rows_with_def)
  then obtain d where d: "insert_rows schema empty_db
           (seed_rows @
            [(''impact_assessment'', assessment_row 1 (VInt 1) (VText ''notify compliance'')),
             (''impact_assessment'', assessment_row 2 (VInt 1) (VText ''notify compliance''))]) =
         Inr d"
    and two: "length (rows_with d ''impact_assessment'' ''document_version_id'' (VInt 1)) = 2"
    by blast
  have "satisfies schema d"
    using insert_rows_preserve [OF schema_names_distinct satisfies_empty_db d] .
  then show ?thesis
    using d two by simp
qed

text \<open>
  C1, amended: the layout constrains \<open>impact_assessment\<close> by its primary key and its
  foreign key only. In every state that satisfies it the ids are distinct and not NULL,
  and each \<open>document_version_id\<close> is NULL or the id of a stored version. The column
  \<open>document_version_id\<close> is not unique: an insert is accepted exactly when the row fits
  the table, its id is not NULL and not taken, and its version is NULL or stored, however
  many rows already reference that version.
\<close>

theorem impact_assessment_constraints:
  assumes "satisfies schema d"
  shows "distinct (column_values d ''impact_assessment'' ''id'') \<and>
         VNull \<notin> set (column_values d ''impact_assessment'' ''id'') \<and>
         (\<forall>v \<in> set (column_values d ''impact_assessment'' ''document_version_id'').
            v = VNull \<or> v \<in> set (column_values d ''document_version'' ''id'')) \<and>
         ((\<exists>d'. insert_row schema d ''impact_assessment'' r = Inr d') \<longleftrightarrow>
            row_fits schema ''impact_assessment'' r \<and>
            cell r ''id'' \<noteq> VNull \<and>
            cell r ''id'' \<notin> set (column_values d ''impact_assessment'' ''id'') \<and>
            (cell r ''document_version_id'' = VNull \<or>
             cell r ''document_version_id'' \<in> set (column_values d ''document_version'' ''id'')))"
proof -
  have pk: "attr_holds d ''impact_assessment'' ''id'' PRIMARY_KEY"
    using satisfies_attr [OF assms find_column_schema(4), of PRIMARY_KEY] by simp
  have fk: "attr_holds d ''impact_assessment'' ''document_version_id''
              (REFERENCES ''document_version'' ''id'')"
    using satisfies_attr [OF assms find_column_schema(5)] by simp
  have ins: "(\<exists>d'. insert_row schema d ''impact_assessment'' r = Inr d') \<longleftrightarrow>
            row_fits schema ''impact_assessment'' r \<and>
            cell r ''id'' \<noteq> VNull \<and>
            cell r ''id'' \<notin> set (column_values d ''impact_assessment'' ''id'') \<and>
            (cell r ''document_version_id'' = VNull \<or>
             cell r ''document_version_id'' \<in> set (column_values d ''document_version'' ''id''))"
    by (auto simp add: insert_defs row_fits_def Let_def column_values_append split: list.splits)
  show ?thesis
    using pk fk ins by simp
qed


theorem impact_assessment_constraints_witness:
  "satisfies schema assessed_db \<and>
   column_values assessed_db ''impact_assessment'' ''document_version_id'' = [VInt 1] \<and>
   cell (assessment_row 2 (VInt 1) (VText ''file report'')) ''document_version_id'' = VInt 1 \<and>
   row_fits schema ''impact_assessment'' (assessment_row 2 (VInt 1) (VText ''file report'')) \<and>
   (\<exists>d'. insert_row schema assessed_db ''impact_assessment''
           (assessment_row 2 (VInt 1) (VText ''file report'')) = Inr d')"
proof -
  have s: "satisfies schema assessed_db"
    by (rule satisfies_assessed_db)
  have a: "column_values assessed_db ''impact_assessment'' ''document_version_id'' = [VInt 1]"
    "column_values assessed_db ''impact_assessment'' ''id'' = [VInt 1]"
    "column_values assessed_db ''document_version'' ''id'' = [VInt 1]"
    by (simp_all add: sample_defs column_values_def cell_def)
  have b: "cell (assessment_row 2 (VInt 1) (VText ''file report'')) ''document_version_id'' = VInt 1"
    "cell (assessment_row 2 (VInt 1) (VText ''file report'')) ''id'' = VInt 2"
    by (simp_all add: sample_defs cell_def)
  have f: "row_fits schema ''impact_assessment'' (assessment_row 2 (VInt 1) (VText ''file report''))"
    by (simp add: row_fits_def find_table_def schema_def shape_violations_def sample_defs
        cell_def type_defs)
  have "\<exists>d'. insert_row schema assessed_db ''impact_assessment''
           (assessment_row 2 (VInt 1) (VText ''file report'')) = Inr d'"
    using impact_assessment_constraints
      [OF s, of "assessment_row 2 (VInt 1) (VText ''file report'')"] a b f
    by simp
  then show ?thesis
    using s a(1) b(1) f by blast
qed

text \<open>
  C2, as stated, fails: the store accepts two change events for version 1 and a third
  whose \<open>document_version_id\<close> is NULL, and the state satisfies the layout.
\<close>

theorem change_events_not_one_to_one:
  "(case insert_rows schema empty_db
           (seed_rows @
            [(''change_event'', event_row 1 (VInt 1) VNull),
             (''change_event'', event_row 2 (VInt 1) VNull),
             (''change_event'', event_row 3 VNull VNull)]) of
      Inl e \<Rightarrow> False
    | Inr d \<Rightarrow>
        satisfies schema d \<and>
        length (rows_with d ''change_event'' ''document_version_id'' (VInt 1)) = 2 \<and>
        length (rows_with d ''change_event'' ''document_version_id'' VNull) = 1)"
proof -
  have "\<exists>d. insert_rows schema empty_db
           (seed_rows @
            [(''change_event'', event_row 1 (VInt 1) VNull),
             (''change_event'', event_row 2 (VInt 1) VNull),
             (''change_event'', event_row 3 VNull VNull)]) = Inr d \<and>
        length (rows_with d ''change_event'' ''document_version_id'' (VInt 1)) = 2 \<and>
        length (rows_with d ''change_event'' ''document_version_id'' VNull) = 1"
    by (simp add: insert_defs sample_defs column_values_def cell_def type_defs rows_with_def)
  then obtain d where d: "insert_rows schema empty_db
           (seed_rows @
            [(''change_event'', event_row 1 (VInt 1) VNull),
             (''change_event'', event_row 2 (VInt 1) VNull),
             (''change_event'', event_row 3 VNull VNull)]) = Inr d"
    and n: "length (rows_with d ''change_event'' ''document_version_id'' (VInt 1)) = 2"
      "length (rows_with d ''change_event'' ''document_version_id'' VNull) = 1"
    by blast
  have "satisfies schema d"
    using insert_rows_preserve [OF schema_names_distinct satisfies_empty_db d] .
  then show ?thesis
    using d n by simp
qed

text \<open>
  C2, amended: in every state that satisfies the layout, the \<open>document_version_id\<close> of a
  change event is NULL or the id of a stored version, and so is its \<open>prev_version_id\<close>;
  the foreign keys enforce that and no more. Neither column is \<open>NOT NULL\<close> or unique: an
  insert is accepted exactly when the row fits the table, its id is not NULL and not
  taken, and each of the two references is NULL or stored.
\<close>

theorem change_event_constraints:
  assumes "satisfies schema d"
  shows "(\<forall>v \<in> set (column_values d ''change_event'' ''document_version_id'').
            v = VNull \<or> v \<in> set (column_values d ''document_version'' ''id'')) \<and>
         (\<forall>v \<in> set (column_values d ''change_event'' ''prev_version_id'').
            v = VNull \<or> v \<in> set (column_values d ''document_version'' ''id'')) \<and>
         ((\<exists>d'. insert_row schema d ''change_event'' r = Inr d') \<longleftrightarrow>
            row_fits schema ''change_event'' r \<and>
            cell r ''id'' \<noteq> VNull \<and>
            cell r ''id'' \<notin> set (column_values d ''change_event'' ''id'') \<and>
            (cell r ''document_version_id'' = VNull \<or>
             cell r ''document_version_id'' \<in> set (column_values d ''document_version'' ''id'')) \<and>
            (cell r ''prev_version_id'' = VNull \<or>
             cell r ''prev_version_id'' \<in> set (column_values d ''document_version'' ''id'')))"
proof -
  have fk1: "attr_holds d ''change_event'' ''document_version_id''
              (REFERENCES ''document_version'' ''id'')"
    using satisfies_attr [OF assms find_column_schema(2)] by simp
  have fk2: "attr_holds d ''change_event'' ''prev_version_id''
              (REFERENCES ''document_version'' ''id'')"
    using satisfies_attr [OF assms find_column_schema(3)] by simp
  have ins: "(\<exists>d'. insert_row schema d ''change_event'' r = Inr d') \<longleftrightarrow>
            row_fits schema ''change_event'' r \<and>
            cell r ''id'' \<noteq> VNull \<and>
            cell r ''id'' \<notin> set (column_values d ''change_event'' ''id'') \<and>
            (cell r ''document_version_id'' = VNull \<or>
             cell r ''document_version_id'' \<in> set (column_values d ''document_version'' ''id'')) \<and>
            (cell r ''prev_version_id'' = VNull \<or>
             cell r ''prev_version_id'' \<in> set (column_values d ''document_version'' ''id''))"
    by (auto simp add: insert_defs row_fits_def Let_def column_values_append split: list.splits)
  show ?thesis
    using fk1 fk2 ins by simp
qed

theorem change_event_constraints_witness:
  "satisfies schema assessed_db \<and>
   row_fits schema ''change_event'' (event_row 1 (VInt 1) VNull) \<and>
   column_values assessed_db ''document_version'' ''id'' = [VInt 1] \<and>
   (\<exists>d'. insert_row schema assessed_db ''change_event'' (event_row 1 (VInt 1) VNull) = Inr d') \<and>
   \<not> (\<exists>d'. insert_row schema assessed_db ''change_event'' (event_row 1 (VInt 9) VNull) = Inr d')"
proof -
  have s: "satisfies schema assessed_db"
    by (rule satisfies_assessed_db)
  have a: "column_values assessed_db ''document_version'' ''id'' = [VInt 1]"
    "column_values assessed_db ''change_event'' ''id'' = []"
    by (simp_all add: sample_defs column_values_def cell_def)
  have b: "cell (event_row 1 (VInt 1) VNull) ''document_version_id'' = VInt 1"
    "cell (event_row 1 (VInt 1) VNull) ''prev_version_id'' = VNull"
    "cell (event_row 1 (VInt 1) VNull) ''id'' = VInt 1"
    "cell (event_row 1 (VInt 9) VNull) ''document_version_id'' = VInt 9"
    by (simp_all add: sample_defs cell_def)
  have f: "row_fits schema ''change_event'' (event_row 1 (VInt 1) VNull)"
    by (simp add: row_fits_def find_table_def schema_def shape_violations_def sample_defs
        cell_def type_defs)
  have yes: "\<exists>d'. insert_row schema assessed_db ''change_event'' (event_row 1 (VInt 1) VNull) = Inr d'"
    using change_event_constraints [OF s, of "event_row 1 (VInt 1) VNull"] a b f by simp
  have no: "\<not> (\<exists>d'. insert_row schema assessed_db ''change_event'' (event_row 1 (VInt 9) VNull) = Inr d')"
    using change_event_constraints [OF s, of "event_row 1 (VInt 9) VNull"] a b by simp
  show ?thesis
    using s f a(1) yes no by blast
qed

subsection \<open>The impact payload and the stored row\<close>







section \<open>Properties of the ingestion pipeline\<close>

































end
